theory Spec2Isabelle
  imports Complex_Main
begin

section \<open>Values and errors\<close>

text \<open>
  A translation file is the result of \<open>JSON.parse\<close>. The TypeScript field is declared
  \<open>Record<string, string | object>\<close>, but nothing checks the parsed document against it, so
  the datatype has every JSON kind. What the code asks of a value is \<open>typeof v\<close> and
  \<open>Array.isArray v\<close>:
  \<^item> \<open>JString\<close>: \<open>typeof = 'string'\<close>;
  \<^item> \<open>JObject\<close>: \<open>typeof = 'object'\<close>, a plain object, kept as the list of its own
    properties in the order \<open>Object.entries\<close> enumerates them;
  \<^item> \<open>JArray\<close>: \<open>typeof = 'object'\<close> and \<open>Array.isArray\<close>;
  \<^item> \<open>JNull\<close>: \<open>typeof = 'object'\<close> as well, and every property access on it throws;
  \<^item> \<open>JNumber\<close>, \<open>JBool\<close>: neither string nor object; the payload is never inspected.

  Every object of a tree is a plain object: its prototype is \<open>Object.prototype\<close>, taken
  as the engine creates it, before any write to it.
\<close>

datatype json =
    JString string
  | JObject "(string \<times> json) list"
  | JArray "json list"
  | JNull
  | JNumber int
  | JBool bool

type_synonym jobject = "(string \<times> json) list"

text \<open>
  Exceptions are values. Two further values are not JavaScript exceptions; they mark a run
  that leaves what is embedded here, and no theorem below speaks about such a run:
  \<^item> \<open>ArrayNode\<close>: a path of \<open>setJsonValue\<close> or \<open>getJsonValue\<close> enters an array, whose
    property semantics (indices, \<open>length\<close>, holes, named properties) are not embedded;
  \<^item> \<open>PrototypeWrite\<close>: an assignment writes a property of \<open>Object.prototype\<close>, or
    replaces the prototype of an object, which changes what every later property read
    finds.
\<close>

datatype error =
  TypeError | RangeError | SyntaxError | Error string | ArrayNode | PrototypeWrite

record TranslationKeyValue =
  key :: string
  "value" :: string

section \<open>Strings and object properties\<close>

text \<open>\<open>key.split('.')\<close>: always at least one segment.\<close>

fun split_dot :: "string \<Rightarrow> string list" where
  "split_dot [] = [[]]"
| "split_dot (c # cs) =
     (if c = CHR ''.'' then [] # split_dot cs
      else (case split_dot cs of
              [] \<Rightarrow> [[c]]
            | s # ss \<Rightarrow> (c # s) # ss))"

text \<open>\<open>parentKeys.join('.')\<close>.\<close>

fun join_dot :: "string list \<Rightarrow> string" where
  "join_dot [] = []"
| "join_dot [s] = s"
| "join_dot (s # t # ss) = s @ ''.'' @ join_dot (t # ss)"

text \<open>
  A property key is an array index when it is the canonical decimal form of an integer
  below \<open>2^32 - 1\<close>. \<open>Object.entries\<close> lists such keys first, in ascending numeric order,
  and then the remaining keys in the order of their creation.
\<close>

definition is_digit :: "char \<Rightarrow> bool" where
  "is_digit c = (48 \<le> (of_char c :: int) \<and> (of_char c :: int) \<le> 57)"

fun int_of_digits :: "int \<Rightarrow> string \<Rightarrow> int" where
  "int_of_digits acc [] = acc"
| "int_of_digits acc (c # cs) = int_of_digits (10 * acc + (of_char c - 48)) cs"

definition array_index :: "string \<Rightarrow> int option" where
  "array_index s =
     (if s \<noteq> [] \<and> list_all is_digit s \<and> (s = ''0'' \<or> hd s \<noteq> CHR ''0'')
         \<and> int_of_digits 0 s < 2 ^ 32 - 1
      then Some (int_of_digits 0 s) else None)"

text \<open>
  \<open>obj[k]\<close> on a plain object. An own property is found first. Otherwise the key is
  looked up in \<open>Object.prototype\<close>: the key \<open>__proto__\<close> is an accessor there, whose getter
  returns \<open>Object.prototype\<close> itself, an object. The other properties of
  \<open>Object.prototype\<close> (\<open>constructor\<close>, \<open>toString\<close>, \<open>hasOwnProperty\<close>, ...) are functions:
  a value that is neither a string nor an object, which every test of the code
  (\<open>typeof v === 'string'\<close>, \<open>!(k in obj) || typeof obj[k] !== 'object'\<close>) treats as it treats
  \<open>undefined\<close>, and an assignment to such a key creates an own property, as for a
  missing key. They are \<open>Undefined\<close> here.
\<close>

datatype property = Own json | ObjectPrototype | Undefined

definition obj_get :: "jobject \<Rightarrow> string \<Rightarrow> property" where
  "obj_get obj k =
     (case map_of obj k of
        Some v \<Rightarrow> Own v
      | None \<Rightarrow> if k = ''__proto__'' then ObjectPrototype else Undefined)"

fun obj_replace :: "jobject \<Rightarrow> string \<Rightarrow> json \<Rightarrow> jobject" where
  "obj_replace [] k v = []"
| "obj_replace ((k', v') # rest) k v =
     (if k' = k then (k, v) # rest else (k', v') # obj_replace rest k v)"

fun obj_insert_index :: "int \<Rightarrow> string \<Rightarrow> json \<Rightarrow> jobject \<Rightarrow> jobject" where
  "obj_insert_index n k v [] = [(k, v)]"
| "obj_insert_index n k v ((k', v') # rest) =
     (case array_index k' of
        Some m \<Rightarrow> if m < n then (k', v') # obj_insert_index n k v rest
                  else (k, v) # (k', v') # rest
      | None \<Rightarrow> (k, v) # (k', v') # rest)"

text \<open>Writing an own data property: an existing property keeps its place; a new one is
  enumerated among the array indices when its key is one, and last otherwise.\<close>

definition obj_put :: "jobject \<Rightarrow> string \<Rightarrow> json \<Rightarrow> jobject" where
  "obj_put obj k v =
     (if map_of obj k \<noteq> None then obj_replace obj k v
      else (case array_index k of
              Some n \<Rightarrow> obj_insert_index n k v obj
            | None \<Rightarrow> obj @ [(k, v)]))"

text \<open>
  \<open>obj[k] = v\<close>. An own property is overwritten, and a key that is not \<open>__proto__\<close> gets
  an own property. The key \<open>__proto__\<close>, when it is not an own property (\<open>JSON.parse\<close>
  makes it one when the file has it), reaches the setter of \<open>Object.prototype\<close>: a string,
  a number or a boolean is discarded and nothing is stored; an object or \<open>null\<close> becomes
  the prototype of \<open>obj\<close>.
\<close>

definition obj_set :: "jobject \<Rightarrow> string \<Rightarrow> json \<Rightarrow> error + jobject" where
  "obj_set obj k v =
     (if map_of obj k = None \<and> k = ''__proto__'' then
        (case v of
           JObject child \<Rightarrow> Inl PrototypeWrite
         | JArray xs \<Rightarrow> Inl PrototypeWrite
         | JNull \<Rightarrow> Inl PrototypeWrite
         | _ \<Rightarrow> Inr obj)
      else Inr (obj_put obj k v))"

text \<open>A \<open>Map<string, string>\<close> is the list of its entries in insertion order;
  \<open>Map.set\<close> keeps the place of an existing key.\<close>

type_synonym smap = "(string \<times> string) list"

fun map_set :: "smap \<Rightarrow> string \<Rightarrow> string \<Rightarrow> smap" where
  "map_set [] k v = [(k, v)]"
| "map_set ((k', v') # rest) k v =
     (if k' = k then (k, v) # rest else (k', v') # map_set rest k v)"

section \<open>TranslationJson\<close>

definition is_string :: "json \<Rightarrow> bool" where
  "is_string v = (case v of JString _ \<Rightarrow> True | _ \<Rightarrow> False)"

definition isFlat :: "jobject \<Rightarrow> bool" where
  "isFlat obj = list_all is_string (map snd obj)"

text \<open>
  \<open>getJsonValue\<close> and \<open>setJsonValue\<close> called on \<open>Object.prototype\<close>, which is where the
  descent arrives through a key \<open>__proto__\<close> that is not an own property. No property of
  \<open>Object.prototype\<close> is a string, and its only property of type \<open>'object'\<close> is
  \<open>__proto__\<close>, whose value is \<open>null\<close>: a descent through it reads or writes a property of
  \<open>null\<close> and throws. \<open>Object.prototype.__proto__ = v\<close> does nothing for a string, a number,
  a boolean or \<open>null\<close>, and throws for an object, the prototype of \<open>Object.prototype\<close>
  being immutable. Every other assignment writes a property of \<open>Object.prototype\<close>.
\<close>

fun getJsonValue_Object_prototype :: "string list \<Rightarrow> error + string option" where
  "getJsonValue_Object_prototype [] = Inr None"
| "getJsonValue_Object_prototype [k] = Inr None"
| "getJsonValue_Object_prototype (firstKey # k # ks) =
     (if firstKey = ''__proto__'' then Inl TypeError else Inr None)"

fun setJsonValue_Object_prototype :: "string list \<Rightarrow> json \<Rightarrow> error + unit" where
  "setJsonValue_Object_prototype [] v = Inr ()"
| "setJsonValue_Object_prototype [k] v =
     (if k = ''__proto__'' then
        (case v of
           JObject child \<Rightarrow> Inl TypeError
         | JArray xs \<Rightarrow> Inl TypeError
         | _ \<Rightarrow> Inr ())
      else Inl PrototypeWrite)"
| "setJsonValue_Object_prototype (firstKey # k # ks) v =
     (if firstKey = ''__proto__'' then Inl TypeError else Inl PrototypeWrite)"

text \<open>
  \<open>setJsonValue\<close> mutates \<open>obj\<close>; the model returns the object it leaves when it returns,
  and only the exception when it throws. The guard
  \<open>!(firstKey in obj) || typeof obj[firstKey] !== 'object'\<close> replaces a missing member, a
  string, a number or a boolean by \<open>{}\<close> and descends into it. A \<open>null\<close> member has
  \<open>typeof\<close> \<open>'object'\<close>: the call descends into it, and there the assignment
  \<open>obj[keys[0]] = value\<close> or the test \<open>firstKey in obj\<close> throws a \<open>TypeError\<close>.
  \<open>getJsonValue\<close> has the same guard and the same descent.
\<close>

fun setJsonValue :: "jobject \<Rightarrow> string list \<Rightarrow> json \<Rightarrow> error + jobject" where
  "setJsonValue obj [] v = Inr obj"
| "setJsonValue obj [k] v = obj_set obj k v"
| "setJsonValue obj (firstKey # k # ks) v =
     (case obj_get obj firstKey of
        Own (JObject child) \<Rightarrow>
          (case setJsonValue child (k # ks) v of
             Inl e \<Rightarrow> Inl e
           | Inr child' \<Rightarrow> Inr (obj_put obj firstKey (JObject child')))
      | Own JNull \<Rightarrow> Inl TypeError
      | Own (JArray xs) \<Rightarrow> Inl ArrayNode
      | ObjectPrototype \<Rightarrow>
          (case setJsonValue_Object_prototype (k # ks) v of
             Inl e \<Rightarrow> Inl e
           | Inr u \<Rightarrow> Inr obj)
      | _ \<Rightarrow>
          (case setJsonValue [] (k # ks) v of
             Inl e \<Rightarrow> Inl e
           | Inr child' \<Rightarrow> Inr (obj_put obj firstKey (JObject child'))))"

definition setValue :: "jobject \<Rightarrow> string \<Rightarrow> string \<Rightarrow> error + jobject" where
  "setValue obj k v =
     (if isFlat obj then obj_set obj k (JString v)
      else setJsonValue obj (split_dot k) (JString v))"

fun getJsonValue :: "jobject \<Rightarrow> string list \<Rightarrow> error + string option" where
  "getJsonValue obj [] = Inr None"
| "getJsonValue obj [k] =
     (case obj_get obj k of Own (JString s) \<Rightarrow> Inr (Some s) | _ \<Rightarrow> Inr None)"
| "getJsonValue obj (firstKey # k # ks) =
     (case obj_get obj firstKey of
        Own (JObject child) \<Rightarrow> getJsonValue child (k # ks)
      | Own JNull \<Rightarrow> Inl TypeError
      | Own (JArray xs) \<Rightarrow> Inl ArrayNode
      | ObjectPrototype \<Rightarrow> getJsonValue_Object_prototype (k # ks)
      | _ \<Rightarrow> Inr None)"

definition getValue :: "jobject \<Rightarrow> string \<Rightarrow> error + TranslationKeyValue" where
  "getValue obj k =
     (if isFlat obj then
        Inr \<lparr>key = k, value = (case obj_get obj k of Own (JString s) \<Rightarrow> s | _ \<Rightarrow> [])\<rparr>
      else
        (case getJsonValue obj (split_dot k) of
           Inl e \<Rightarrow> Inl e
         | Inr r \<Rightarrow> Inr \<lparr>key = k, value = (case r of Some s \<Rightarrow> s | None \<Rightarrow> [])\<rparr>))"

definition fullKey :: "string list \<Rightarrow> string \<Rightarrow> string" where
  "fullKey parentKeys k =
     (if length parentKeys > 0 then join_dot parentKeys @ ''.'' @ k else k)"

text \<open>The loop of \<open>flattenJson\<close> over \<open>Object.entries(object)\<close>; \<open>result\<close> is the one map
  shared by all recursive calls. A \<open>null\<close> member passes the test
  \<open>typeof value === 'object' && !Array.isArray(value)\<close>, and \<open>Object.entries(null)\<close>
  throws.\<close>

fun flattenJson :: "jobject \<Rightarrow> string list \<Rightarrow> smap \<Rightarrow> error + smap" where
  "flattenJson [] parentKeys result = Inr result"
| "flattenJson ((k, JObject child) # rest) parentKeys result =
     (case flattenJson child (parentKeys @ [k]) result of
        Inl e \<Rightarrow> Inl e
      | Inr result' \<Rightarrow> flattenJson rest parentKeys result')"
| "flattenJson ((k, JNull) # rest) parentKeys result = Inl TypeError"
| "flattenJson ((k, JString s) # rest) parentKeys result =
     flattenJson rest parentKeys (map_set result (fullKey parentKeys k) s)"
| "flattenJson ((k, JArray xs) # rest) parentKeys result = flattenJson rest parentKeys result"
| "flattenJson ((k, JNumber n) # rest) parentKeys result = flattenJson rest parentKeys result"
| "flattenJson ((k, JBool b) # rest) parentKeys result = flattenJson rest parentKeys result"

definition flatten :: "jobject \<Rightarrow> error + smap" where
  "flatten obj = flattenJson obj [] []"

text \<open>The two loops of \<open>diff\<close>, each pushing onto the list \<open>diff\<close>.\<close>

fun diff_changed :: "smap \<Rightarrow> smap \<Rightarrow> TranslationKeyValue list \<Rightarrow> TranslationKeyValue list" where
  "diff_changed [] otherMap acc = acc"
| "diff_changed ((selfKey, selfValue) # rest) otherMap acc =
     (case map_of otherMap selfKey of
        None \<Rightarrow> diff_changed rest otherMap (acc @ [\<lparr>key = selfKey, value = selfValue\<rparr>])
      | Some otherValue \<Rightarrow>
          if otherValue \<noteq> selfValue
          then diff_changed rest otherMap (acc @ [\<lparr>key = selfKey, value = selfValue\<rparr>])
          else diff_changed rest otherMap acc)"

fun diff_added :: "smap \<Rightarrow> smap \<Rightarrow> TranslationKeyValue list \<Rightarrow> TranslationKeyValue list" where
  "diff_added [] selfMap acc = acc"
| "diff_added ((otherKey, otherValue) # rest) selfMap acc =
     (if map_of selfMap otherKey = None
      then diff_added rest selfMap (acc @ [\<lparr>key = otherKey, value = otherValue\<rparr>])
      else diff_added rest selfMap acc)"

definition diff :: "jobject \<Rightarrow> jobject \<Rightarrow> error + TranslationKeyValue list" where
  "diff self other =
     (case flatten self of
        Inl e \<Rightarrow> Inl e
      | Inr selfMap \<Rightarrow>
          (case flatten other of
             Inl e \<Rightarrow> Inl e
           | Inr otherMap \<Rightarrow> Inr (diff_added otherMap selfMap (diff_changed selfMap otherMap []))))"

text \<open>The merge loop of \<open>translatePatch\<close>:
  \<open>for (const translated of translates) translation.setValue(translated.key, translated.value)\<close>.\<close>

fun setValues :: "jobject \<Rightarrow> TranslationKeyValue list \<Rightarrow> error + jobject" where
  "setValues obj [] = Inr obj"
| "setValues obj (translated # rest) =
     (case setValue obj (key translated) (value translated) of
        Inl e \<Rightarrow> Inl e
      | Inr obj' \<Rightarrow> setValues obj' rest)"

text \<open>An entry of a flattened map as the \<open>TranslationKeyValue\<close> built from it.\<close>

definition entry :: "string \<times> string \<Rightarrow> TranslationKeyValue" where
  "entry p = \<lparr>key = fst p, value = snd p\<rparr>"

section \<open>TranslationJsonFile, the earlier purely recursive variant\<close>



section \<open>Domains of the statements\<close>

text \<open>
  The specification's translation tree has string leaves and mapping nodes. The statements
  below hold on more documents than that, and say so through two predicates:
  \<open>no_null_member\<close>, no \<open>null\<close> member in any object that \<open>flattenJson\<close> visits (arrays,
  numbers and booleans may occur, and are skipped); and \<open>translation_tree\<close>, in addition no
  array member, so that \<open>setJsonValue\<close> and \<open>getJsonValue\<close> only ever descend into plain
  objects.
\<close>

fun no_null_member :: "jobject \<Rightarrow> bool" where
  "no_null_member [] = True"
| "no_null_member ((k, JObject child) # rest) = (no_null_member child \<and> no_null_member rest)"
| "no_null_member ((k, JNull) # rest) = False"
| "no_null_member ((k, v) # rest) = no_null_member rest"

fun translation_tree :: "jobject \<Rightarrow> bool" where
  "translation_tree [] = True"
| "translation_tree ((k, JObject child) # rest) = (translation_tree child \<and> translation_tree rest)"
| "translation_tree ((k, JNull) # rest) = False"
| "translation_tree ((k, JArray xs) # rest) = False"
| "translation_tree ((k, v) # rest) = translation_tree rest"



section \<open>SafeAsync\<close>

text \<open>
  \<open>run\<close> returns an object with the fields \<open>result\<close> and \<open>errors\<close>; the instance keeps
  its own public list \<open>this.errors\<close>, which \<open>run\<close> extends. The operation \<open>fn\<close> has
  effects, so it is given by the outcome of each of its calls: \<open>fn i\<close> is what the call
  made in iteration \<open>i\<close> of the loop does, \<open>Inl e\<close> when it throws or rejects with \<open>e\<close>.
  The only call that can throw is inside the \<open>try\<close> block, so \<open>run\<close> itself has no
  exceptional outcome. The pause between attempts is not modelled.
\<close>

record 'a run_outcome =
  run_result :: "'a option"
  run_errors :: "error list"

function run_loop ::
  "(nat \<Rightarrow> error + 'a) \<Rightarrow> nat \<Rightarrow> nat \<Rightarrow> error list \<Rightarrow> 'a run_outcome \<times> error list" where
  "run_loop fn retries i this_errors =
     (if i < retries then
        (case fn i of
           Inr v \<Rightarrow> (\<lparr>run_result = Some v, run_errors = []\<rparr>, this_errors)
         | Inl e \<Rightarrow>
             (if i = retries - 1
              then (\<lparr>run_result = None, run_errors = this_errors @ [e]\<rparr>, this_errors @ [e])
              else run_loop fn retries (i + 1) (this_errors @ [e])))
      else (\<lparr>run_result = None, run_errors = this_errors\<rparr>, this_errors))"
  by pat_completeness auto
termination
  by (relation "measure (\<lambda>(fn, retries, i, this_errors). retries - i)") auto

text \<open>\<open>run\<close> on an instance whose list \<open>this.errors\<close> is \<open>this_errors\<close>; a new instance has
  the empty list. The second component is \<open>this.errors\<close> afterwards.\<close>

definition SafeAsync_run ::
  "(nat \<Rightarrow> error + 'a) \<Rightarrow> nat \<Rightarrow> error list \<Rightarrow> 'a run_outcome \<times> error list" where
  "SafeAsync_run fn retries this_errors = run_loop fn retries 0 this_errors"

section \<open>Batching\<close>

text \<open>\<open>items.slice(a, b)\<close> for indices \<open>0 \<le> a\<close>, \<open>0 \<le> b\<close>: both are clamped to the length.\<close>

definition slice :: "'a list \<Rightarrow> nat \<Rightarrow> nat \<Rightarrow> 'a list" where
  "slice xs a b = take (b - a) (drop a xs)"

text \<open>
  The batches of \<open>LLMTranslation.translate\<close>:
  \<open>Array.from({length: Math.ceil(translations.length / batchSize)}).map((_, i) => translations.slice(i * batchSize, (i + 1) * batchSize))\<close>.
  With \<open>batchSize = 0\<close> the quotient is \<open>NaN\<close> for the empty list, which gives length 0,
  and \<open>Infinity\<close> otherwise, on which \<open>Array.from\<close> throws a \<open>RangeError\<close>. Lengths and
  batch sizes are natural numbers, and the quotient and its ceiling are taken exactly.
\<close>

definition ceil_div :: "nat \<Rightarrow> nat \<Rightarrow> nat" where
  "ceil_div l n = nat \<lceil>real l / real n\<rceil>"

definition batches :: "'a list \<Rightarrow> nat \<Rightarrow> error + 'a list list" where
  "batches translations batchSize =
     (if batchSize = 0 then (if translations = [] then Inr [] else Inl RangeError)
      else Inr (map (\<lambda>i. slice translations (i * batchSize) ((i + 1) * batchSize))
                  [0..<ceil_div (length translations) batchSize]))"

text \<open>
  \<open>Batch.create\<close>:
  \<open>for (let i = 0; i < this.items.length; i += options.batchSize) this.batch.push(this.items.slice(i, i + options.batchSize))\<close>.
  With \<open>batchSize = 0\<close> and a non-empty list the loop does not end: not returning is
  \<open>None\<close>.
\<close>

partial_function (option) create_loop ::
  "'a list \<Rightarrow> nat \<Rightarrow> nat \<Rightarrow> 'a list list \<Rightarrow> 'a list list option" where
  "create_loop items batchSize i batch =
     (if i < length items
      then create_loop items batchSize (i + batchSize) (batch @ [slice items i (i + batchSize)])
      else Some batch)"

declare create_loop.simps [code]

definition Batch_create :: "'a list \<Rightarrow> nat \<Rightarrow> 'a list list option" where
  "Batch_create items batchSize = create_loop items batchSize 0 []"

section \<open>LLMTranslation\<close>

text \<open>
  \<open>String.prototype.replace\<close> with a string pattern replaces the first occurrence only,
  and reads the replacement as a template: \<open>$$\<close> is a dollar sign, \<open>$&\<close> the matched text,
  \<open>$`\<close> the text before the match and \<open>$'\<close> the text after it; with no capture groups
  every other use of \<open>$\<close> stands for itself.
\<close>

fun starts_with :: "string \<Rightarrow> string \<Rightarrow> bool" where
  "starts_with s [] = True"
| "starts_with [] (p # ps) = False"
| "starts_with (c # cs) (p # ps) = (c = p \<and> starts_with cs ps)"

fun find_first :: "string \<Rightarrow> string \<Rightarrow> (string \<times> string) option" where
  "find_first pat [] = (if pat = [] then Some ([], []) else None)"
| "find_first pat (c # cs) =
     (if starts_with (c # cs) pat then Some ([], drop (length pat) (c # cs))
      else (case find_first pat cs of
              None \<Rightarrow> None
            | Some (preceding, following) \<Rightarrow> Some (c # preceding, following)))"

fun GetSubstitution :: "string \<Rightarrow> string \<Rightarrow> string \<Rightarrow> string \<Rightarrow> string" where
  "GetSubstitution matched preceding following [] = []"
| "GetSubstitution matched preceding following [c] = [c]"
| "GetSubstitution matched preceding following (c # d # rest) =
     (if c = CHR ''$'' then
        (if d = CHR ''$'' then CHR ''$'' # GetSubstitution matched preceding following rest
         else if d = CHR ''&'' then matched @ GetSubstitution matched preceding following rest
         else if d = CHR 0x60 then preceding @ GetSubstitution matched preceding following rest
         else if d = CHR 0x27 then following @ GetSubstitution matched preceding following rest
         else c # GetSubstitution matched preceding following (d # rest))
      else c # GetSubstitution matched preceding following (d # rest))"

definition js_replace :: "string \<Rightarrow> string \<Rightarrow> string \<Rightarrow> string" where
  "js_replace s pat replacement =
     (case find_first pat s of
        None \<Rightarrow> s
      | Some (preceding, following) \<Rightarrow> preceding @ GetSubstitution pat preceding following replacement @ following)"

text \<open>\<open>toLowerCase\<close> on the letters \<open>A\<close> to \<open>Z\<close>. Characters here are bytes; no character
  outside ASCII has one of \<open>x\<close>, \<open>h\<close>, \<open>o\<close>, \<open>s\<close>, \<open>a\<close> as its lower case, so the
  comparison with \<open>'xhosa'\<close> is the one JavaScript makes.\<close>

definition lower_char :: "char \<Rightarrow> char" where
  "lower_char c =
     (if 65 \<le> (of_char c :: nat) \<and> (of_char c :: nat) \<le> 90
      then char_of ((of_char c :: nat) + 32) else c)"

definition toLowerCase :: "string \<Rightarrow> string" where
  "toLowerCase s = map lower_char s"

text \<open>
  The template \<open>LLM_SYSTEM_PROMPT\<close> up to its placeholder. The text after the placeholder
  (from \<open>.\<close> and \<open>Domain context:\<close> to \<open>Input:\<close>) has characters outside ASCII and plays no
  part in \<open>replace\<close>; it is the parameter \<open>rest\<close>.
\<close>

definition LLM_SYSTEM_PROMPT_head :: string where
  "LLM_SYSTEM_PROMPT_head =
     ''You are a professional translator for a Trade-in POS (Point of Sale) SaaS application. Translate the following UI text strings from English to ''"

definition LLM_SYSTEM_PROMPT :: "string \<Rightarrow> string" where
  "LLM_SYSTEM_PROMPT rest = LLM_SYSTEM_PROMPT_head @ ''{:language}'' @ rest"

definition LLM_INPUT_PROMPT :: string where
  "LLM_INPUT_PROMPT = ''{:input}''"

definition generateSystemPrompt :: "string \<Rightarrow> string \<Rightarrow> string" where
  "generateSystemPrompt rest languageName =
     (let isXhosa = (toLowerCase languageName = ''xhosa'')
      in js_replace (LLM_SYSTEM_PROMPT rest) ''{:language}''
           (if isXhosa then ''English'' else languageName))"

definition generateUserPrompt :: "string \<Rightarrow> string" where
  "generateUserPrompt input = js_replace LLM_INPUT_PROMPT ''{:input}'' input"

text \<open>\<open>String(i)\<close> for an array index \<open>i\<close>: its decimal digits.\<close>

function String_of_index :: "nat \<Rightarrow> string" where
  "String_of_index i =
     (if i < 10 then [char_of (48 + i)]
      else String_of_index (i div 10) @ [char_of (48 + i mod 10)])"
  by pat_completeness auto
termination
  by (relation "measure id") auto

declare String_of_index.simps [simp del]

fun join_lines :: "string list \<Rightarrow> string" where
  "join_lines [] = []"
| "join_lines [s] = s"
| "join_lines (s # t # ss) = s @ [CHR 0x0A] @ join_lines (t # ss)"

definition generateTranslationFormattedInput :: "TranslationKeyValue list \<Rightarrow> string" where
  "generateTranslationFormattedInput translations =
     join_lines (map (\<lambda>(translation, index).
                        ''['' @ String_of_index index @ ''] '' @ [CHR 0x22] @ value translation @ [CHR 0x22])
                     (zip translations [0..<length translations]))"

text \<open>
  What lies outside the repository is a field of the client: \<open>chat_send\<close> is
  \<open>llmClient.chat.send\<close> followed by \<open>response.choices[0]?.message?.content\<close>, on a world
  state \<open>'w\<close>; it rejects (\<open>Inl\<close>) or yields the content, \<open>None\<close> when that is not a
  string. \<open>JSON_parse\<close> is \<open>JSON.parse\<close>, its result taken at the declared type
  \<open>Record<string, string>\<close> (\<open>Translations\<close>), or a falsy value (\<open>null\<close>, \<open>false\<close>, \<open>0\<close>,
  the empty string), which is what \<open>!result\<close> tests.
\<close>

datatype parsed = Falsy | Translations "(string \<times> string) list"

record 'w LLMTranslation =
  language_name :: string
  prompt_rest :: string
  chat_send :: "'w \<Rightarrow> string \<Rightarrow> string list \<Rightarrow> (error + string option) \<times> 'w"
  JSON_parse :: "string \<Rightarrow> error + parsed"

definition sendLLMRequest ::
  "'w LLMTranslation \<Rightarrow> 'w \<Rightarrow> string \<Rightarrow> string \<Rightarrow> string list \<Rightarrow> (error + parsed) \<times> 'w" where
  "sendLLMRequest this w systemPrompt userPrompt keys =
     (case chat_send this w (systemPrompt @ [CHR 0x0A] @ userPrompt) keys of
        (Inl e, w') \<Rightarrow> (Inl e, w')
      | (Inr None, w') \<Rightarrow> (Inl (Error ''Unexpected response format from LLM''), w')
      | (Inr (Some content), w') \<Rightarrow> (JSON_parse this content, w'))"

text \<open>\<open>processTranslations\<close> awaits \<open>sendLLMRequest\<close> outside any \<open>try\<close>: its exception is
  the exception of \<open>processTranslations\<close>. \<open>Inr None\<close> is the return of \<open>undefined\<close>.\<close>

definition processTranslations ::
  "'w LLMTranslation \<Rightarrow> 'w \<Rightarrow> TranslationKeyValue list
     \<Rightarrow> (error + TranslationKeyValue list option) \<times> 'w" where
  "processTranslations this w translations =
     (let formattedInput = generateTranslationFormattedInput translations;
          systemPrompt = generateSystemPrompt (prompt_rest this) (language_name this);
          userPrompt = generateUserPrompt formattedInput
      in case sendLLMRequest this w systemPrompt userPrompt
                (map String_of_index [0..<length translations]) of
           (Inl e, w') \<Rightarrow> (Inl e, w')
         | (Inr Falsy, w') \<Rightarrow> (Inr None, w')
         | (Inr (Translations result), w') \<Rightarrow>
             (Inr (Some (map (\<lambda>(t, i).
                     \<lparr>key = key t,
                      value = (case map_of result (String_of_index i) of
                                 Some s \<Rightarrow> s | None \<Rightarrow> value t)\<rparr>)
                   (zip translations [0..<length translations]))), w'))"

text \<open>The loop of \<open>translate\<close> over the batches, one after the other; \<open>acc\<close> is \<open>result\<close>.\<close>

fun translate_loop ::
  "'w LLMTranslation \<Rightarrow> 'w \<Rightarrow> TranslationKeyValue list list \<Rightarrow> TranslationKeyValue list
     \<Rightarrow> (error + TranslationKeyValue list) \<times> 'w" where
  "translate_loop this w [] acc = (Inr acc, w)"
| "translate_loop this w (batch # rest) acc =
     (case processTranslations this w batch of
        (Inl e, w') \<Rightarrow> (Inl e, w')
      | (Inr None, w') \<Rightarrow> translate_loop this w' rest acc
      | (Inr (Some batchResult), w') \<Rightarrow> translate_loop this w' rest (acc @ batchResult))"

definition translate ::
  "'w LLMTranslation \<Rightarrow> 'w \<Rightarrow> TranslationKeyValue list \<Rightarrow> nat
     \<Rightarrow> (error + TranslationKeyValue list) \<times> 'w" where
  "translate this w translations batchSize =
     (case batches translations batchSize of
        Inl e \<Rightarrow> (Inl e, w)
      | Inr bs \<Rightarrow> translate_loop this w bs [])"

section \<open>Two clients for concrete runs\<close>

text \<open>The world state counts the calls made to the backend. \<open>flaky_client\<close> rejects the
  first call and answers every later one with an empty object; \<open>french_client\<close> answers
  with a translation for index 0 only.\<close>

definition flaky_client :: "nat LLMTranslation" where
  "flaky_client =
     \<lparr>language_name = ''French'', prompt_rest = ''.'',
      chat_send = (\<lambda>w prompt keys.
         if w = 0 then (Inl (Error ''503''), Suc w) else (Inr (Some ''{}''), Suc w)),
      JSON_parse = (\<lambda>content. Inr (Translations []))\<rparr>"

definition french_client :: "nat LLMTranslation" where
  "french_client =
     \<lparr>language_name = ''French'', prompt_rest = ''.'',
      chat_send = (\<lambda>w prompt keys. (Inr (Some ''{0:Bonjour}''), Suc w)),
      JSON_parse = (\<lambda>content. Inr (Translations [(''0'', ''Bonjour'')]))\<rparr>"

section \<open>Properties of object and map updates\<close>

lemma map_of_obj_replace:
  "map_of (obj_replace obj k v) = (if map_of obj k = None then map_of obj else (map_of obj)(k \<mapsto> v))"
  by (induction obj k v rule: obj_replace.induct) (auto simp: fun_eq_iff)

lemma map_of_obj_insert_index:
  "map_of obj k = None \<Longrightarrow> map_of (obj_insert_index n k v obj) = (map_of obj)(k \<mapsto> v)"
  by (induction n k v obj rule: obj_insert_index.induct) (auto simp: fun_eq_iff split: option.splits)

lemma map_of_snoc:
  "map_of obj k = None \<Longrightarrow> map_of (obj @ [(k, v)]) = (map_of obj)(k \<mapsto> v)"
  by (induction obj) (auto simp: fun_eq_iff)

lemma map_of_obj_put: "map_of (obj_put obj k v) = (map_of obj)(k \<mapsto> v)"
proof (cases "map_of obj k")
  case None
  then show ?thesis
    by (cases "array_index k")
       (simp_all add: obj_put_def map_of_obj_insert_index map_of_snoc del: map_of_append)
next
  case (Some a)
  then show ?thesis by (simp add: obj_put_def map_of_obj_replace)
qed

lemma set_obj_replace:
  "map_of obj k \<noteq> None \<Longrightarrow>
     set (obj_replace obj k v) \<subseteq> insert (k, v) (set obj) \<and> (k, v) \<in> set (obj_replace obj k v)"
  by (induction obj k v rule: obj_replace.induct) (auto split: if_splits)

lemma set_obj_insert_index: "set (obj_insert_index n k v obj) = insert (k, v) (set obj)"
  by (induction n k v obj rule: obj_insert_index.induct) (auto split: option.splits)

lemma set_obj_put:
  "set (obj_put obj k v) \<subseteq> insert (k, v) (set obj) \<and> (k, v) \<in> set (obj_put obj k v)"
proof (cases "map_of obj k")
  case None
  then show ?thesis by (auto simp: obj_put_def set_obj_insert_index split: option.splits)
next
  case (Some a)
  then show ?thesis using set_obj_replace[of obj k v] by (simp add: obj_put_def)
qed

lemma keys_obj_replace: "map fst (obj_replace obj k v) = map fst obj"
  by (induction obj k v rule: obj_replace.induct) auto

lemma distinct_obj_put: "distinct (map fst obj) \<Longrightarrow> distinct (map fst (obj_put obj k v))"
proof (cases "map_of obj k")
  case None
  assume d: "distinct (map fst obj)"
  from None have nk: "k \<notin> fst ` set obj" by (simp add: map_of_eq_None_iff)
  have "distinct (map fst (obj_insert_index n k v obj))" for n
    using d nk by (induction n k v obj rule: obj_insert_index.induct)
                  (auto simp: set_obj_insert_index split: option.splits)
  with None d nk show ?thesis by (auto simp: obj_put_def split: option.splits)
next
  case (Some a)
  assume "distinct (map fst obj)"
  with Some show ?thesis by (simp add: obj_put_def keys_obj_replace)
qed

lemma isFlat_iff: "isFlat obj \<longleftrightarrow> (\<forall>v \<in> snd ` set obj. is_string v)"
  by (auto simp: isFlat_def list_all_iff)

lemma isFlat_obj_put_string: "isFlat obj \<Longrightarrow> isFlat (obj_put obj k (JString s))"
  using set_obj_put[of obj k "JString s"] by (fastforce simp: isFlat_iff is_string_def)

lemma not_isFlat_obj_put_object: "\<not> isFlat (obj_put obj k (JObject c))"
  using set_obj_put[of obj k "JObject c"] by (force simp: isFlat_iff is_string_def)

text \<open>A key other than \<open>__proto__\<close> is read and written as an own property.\<close>

lemma obj_set_plain: "k \<noteq> ''__proto__'' \<Longrightarrow> obj_set obj k v = Inr (obj_put obj k v)"
  by (simp add: obj_set_def)

lemma obj_get_plain:
  "k \<noteq> ''__proto__'' \<Longrightarrow>
     obj_get obj k = (case map_of obj k of None \<Rightarrow> Undefined | Some v \<Rightarrow> Own v)"
  by (simp add: obj_get_def)

lemma map_set_keys: "fst ` set (map_set m k v) = insert k (fst ` set m)"
  by (induction m k v rule: map_set.induct) auto

lemma map_set_distinct: "distinct (map fst m) \<Longrightarrow> distinct (map fst (map_set m k v))"
  by (induction m k v rule: map_set.induct) (auto simp: map_set_keys)

lemma map_of_map_set: "map_of (map_set m k v) = (map_of m)(k \<mapsto> v)"
  by (induction m k v rule: map_set.induct) (auto simp: fun_eq_iff)

section \<open>Splitting keys\<close>

lemma split_dot_nonempty: "split_dot k \<noteq> []"
  by (cases k) (simp_all split: list.split)

lemma split_dot_single: "split_dot k = [s] \<Longrightarrow> s = k"
proof (induction k arbitrary: s)
  case Nil
  then show ?case by simp
next
  case (Cons c cs)
  show ?case
  proof (cases "c = CHR ''.''")
    case True
    with Cons.prems show ?thesis by (simp add: split_dot_nonempty)
  next
    case False
    obtain s' ss where sp: "split_dot cs = s' # ss"
      using split_dot_nonempty[of cs] by (cases "split_dot cs") auto
    with False Cons.prems have "ss = []" "s = c # s'" by auto
    with sp Cons.IH[of s'] show ?thesis by simp
  qed
qed


lemma no_proto_segment_key: "''__proto__'' \<notin> set (split_dot k) \<Longrightarrow> k \<noteq> ''__proto__''"
  by (rule notI) simp

section \<open>Flattening and diff\<close>

lemma flattenJson_returns:
  "no_null_member obj \<Longrightarrow> \<exists>m. flattenJson obj pk r = Inr m"
proof (induction obj pk r rule: flattenJson.induct)
  case (2 k child rest parentKeys result)
  then obtain m where m: "flattenJson child (parentKeys @ [k]) result = Inr m" by auto
  with 2 show ?case by auto
qed auto

lemma flattenJson_distinct:
  "flattenJson obj pk r = Inr m \<Longrightarrow> distinct (map fst r) \<Longrightarrow> distinct (map fst m)"
  by (induction obj pk r arbitrary: m rule: flattenJson.induct)
     (auto simp: map_set_distinct split: sum.splits)

lemma diff_changed_filter:
  "diff_changed m other acc =
     acc @ map entry (filter (\<lambda>p. map_of other (fst p) \<noteq> Some (snd p)) m)"
  by (induction m other acc rule: diff_changed.induct) (auto simp: entry_def split: option.splits)

lemma diff_added_filter:
  "diff_added m self acc = acc @ map entry (filter (\<lambda>p. map_of self (fst p) = None) m)"
  by (induction m self acc rule: diff_added.induct) (auto simp: entry_def)

text \<open>
  Claim C1. When neither tree makes \<open>flatten\<close> throw, \<open>diff base other\<close> returns, in the
  order of \<open>flatten base\<close>, one entry for each key of base that \<open>flatten other\<close> lacks
  or maps to a different string, with base's own value, and after them, in the order of
  \<open>flatten other\<close>, the entries of other whose key base lacks, with other's value. The
  keys of each flattened map are distinct, so no key is emitted twice. For base
  \<open>{"a":"Hello","b":{"c":"World"}}\<close> and patched \<open>{"a":"Hi","b":{"c":"World"},"d":"New"}\<close>
  the result is \<open>[("a","Hello"), ("d","New")]\<close>.
\<close>

theorem diff_emits:
  "(no_null_member base \<and> no_null_member other \<longrightarrow>
      (\<exists>bm om. flatten base = Inr bm \<and> flatten other = Inr om
         \<and> distinct (map fst bm) \<and> distinct (map fst om)
         \<and> diff base other =
             Inr (map entry (filter (\<lambda>p. map_of om (fst p) \<noteq> Some (snd p)) bm)
                  @ map entry (filter (\<lambda>p. map_of bm (fst p) = None) om))))
   \<and> diff [(''a'', JString ''Hello''), (''b'', JObject [(''c'', JString ''World'')])]
          [(''a'', JString ''Hi''), (''b'', JObject [(''c'', JString ''World'')]),
           (''d'', JString ''New'')]
       = Inr [\<lparr>key = ''a'', value = ''Hello''\<rparr>, \<lparr>key = ''d'', value = ''New''\<rparr>]"
proof (intro conjI impI)
  assume a: "no_null_member base \<and> no_null_member other"
  obtain bm where bm: "flatten base = Inr bm"
    using flattenJson_returns[of base] a by (auto simp: flatten_def)
  obtain om where om: "flatten other = Inr om"
    using flattenJson_returns[of other] a by (auto simp: flatten_def)
  have "distinct (map fst bm)" "distinct (map fst om)"
    using bm om flattenJson_distinct by (auto simp: flatten_def)
  then show "\<exists>bm om. flatten base = Inr bm \<and> flatten other = Inr om
         \<and> distinct (map fst bm) \<and> distinct (map fst om)
         \<and> diff base other =
             Inr (map entry (filter (\<lambda>p. map_of om (fst p) \<noteq> Some (snd p)) bm)
                  @ map entry (filter (\<lambda>p. map_of bm (fst p) = None) om))"
    using bm om by (simp add: diff_def diff_changed_filter diff_added_filter)
next
  show "diff [(''a'', JString ''Hello''), (''b'', JObject [(''c'', JString ''World'')])]
          [(''a'', JString ''Hi''), (''b'', JObject [(''c'', JString ''World'')]),
           (''d'', JString ''New'')]
       = Inr [\<lparr>key = ''a'', value = ''Hello''\<rparr>, \<lparr>key = ''d'', value = ''New''\<rparr>]"
    by (simp add: diff_def flatten_def fullKey_def)
qed

theorem diff_emits_witness:
  "no_null_member [(''x'', JString ''1''), (''y'', JObject [(''z'', JString ''2'')]), (''n'', JNumber 3)]
   \<and> no_null_member [(''y'', JObject [(''z'', JString ''3''), (''w'', JString ''4'')])]
   \<and> diff [(''x'', JString ''1''), (''y'', JObject [(''z'', JString ''2'')]), (''n'', JNumber 3)]
          [(''y'', JObject [(''z'', JString ''3''), (''w'', JString ''4'')])]
       = Inr [\<lparr>key = ''x'', value = ''1''\<rparr>, \<lparr>key = ''y.z'', value = ''2''\<rparr>,
              \<lparr>key = ''y.w'', value = ''4''\<rparr>]"
  using diff_emits[of "[(''x'', JString ''1''), (''y'', JObject [(''z'', JString ''2'')]), (''n'', JNumber 3)]"
                      "[(''y'', JObject [(''z'', JString ''3''), (''w'', JString ''4'')])]"]
  by (simp add: flatten_def fullKey_def entry_def)

section \<open>Setting and getting a value\<close>

lemma translation_tree_child:
  "translation_tree obj \<Longrightarrow> map_of obj k = Some v \<Longrightarrow>
     v \<noteq> JNull \<and> (\<forall>xs. v \<noteq> JArray xs) \<and> (\<forall>c. v = JObject c \<longrightarrow> translation_tree c)"
proof (induction obj)
  case Nil
  then show ?case by simp
next
  case (Cons p obj)
  obtain k' v' where p: "p = (k', v')" by (cases p)
  from Cons.prems(1) p have t: "translation_tree obj" by (cases v') simp_all
  show ?case
  proof (cases "k' = k")
    case True
    with Cons.prems p have "v' = v" by simp
    with Cons.prems(1) p show ?thesis by (cases v) simp_all
  next
    case False
    with Cons.prems p have "map_of obj k = Some v" by simp
    with Cons.IH t show ?thesis by simp
  qed
qed

lemma setJsonValue_step:
  assumes "setJsonValue obj (a # b # ks) v = Inr obj'" and "a \<noteq> ''__proto__''"
  shows "\<exists>child child'. setJsonValue child (b # ks) v = Inr child'
           \<and> obj' = obj_put obj a (JObject child')"
proof (cases "map_of obj a")
  case None
  with assms show ?thesis
    by (cases "setJsonValue [] (b # ks) v") (auto simp: obj_get_plain)
next
  case (Some x)
  show ?thesis
  proof (cases x)
    case (JObject child)
    with Some assms show ?thesis
      by (cases "setJsonValue child (b # ks) v") (auto simp: obj_get_plain)
  next
    case (JString s)
    with Some assms show ?thesis
      by (cases "setJsonValue [] (b # ks) v") (auto simp: obj_get_plain)
  next
    case (JNumber n)
    with Some assms show ?thesis
      by (cases "setJsonValue [] (b # ks) v") (auto simp: obj_get_plain)
  next
    case (JBool n)
    with Some assms show ?thesis
      by (cases "setJsonValue [] (b # ks) v") (auto simp: obj_get_plain)
  qed (use Some assms in \<open>simp_all add: obj_get_plain\<close>)
qed

lemma setJsonValue_returns:
  "translation_tree obj \<Longrightarrow> ''__proto__'' \<notin> set ks \<Longrightarrow>
     \<exists>obj'. setJsonValue obj ks v = Inr obj'"
proof (induction ks arbitrary: obj)
  case Nil
  then show ?case by simp
next
  case (Cons a ks)
  from Cons.prems(2) have a: "a \<noteq> ''__proto__''" and ks': "''__proto__'' \<notin> set ks" by auto
  show ?case
  proof (cases ks)
    case Nil
    with a show ?thesis by (simp add: obj_set_plain)
  next
    case ks: (Cons b rest)
    obtain fresh where fresh: "setJsonValue [] (b # rest) v = Inr fresh"
      using Cons.IH[of "[]"] ks ks' by auto
    show ?thesis
    proof (cases "map_of obj a")
      case None
      with fresh ks a show ?thesis by (simp add: obj_get_plain)
    next
      case (Some x)
      note tc = translation_tree_child[OF Cons.prems(1) Some]
      show ?thesis
      proof (cases x)
        case (JObject child)
        with tc have "translation_tree child" by simp
        then obtain c' where "setJsonValue child (b # rest) v = Inr c'"
          using Cons.IH[of child] ks ks' by auto
        with Some JObject ks a show ?thesis by (simp add: obj_get_plain)
      qed (use Some fresh tc ks a in \<open>simp_all add: obj_get_plain\<close>)
    qed
  qed
qed

lemma getJsonValue_setJsonValue:
  "ks \<noteq> [] \<Longrightarrow> ''__proto__'' \<notin> set ks \<Longrightarrow> setJsonValue obj ks (JString s) = Inr obj' \<Longrightarrow>
     getJsonValue obj' ks = Inr (Some s)"
proof (induction ks arbitrary: obj obj')
  case Nil
  then show ?case by simp
next
  case (Cons a ks)
  from Cons.prems(2) have a: "a \<noteq> ''__proto__''" and ks': "''__proto__'' \<notin> set ks" by auto
  show ?case
  proof (cases ks)
    case Nil
    with Cons.prems a show ?thesis by (auto simp: obj_set_plain obj_get_plain map_of_obj_put)
  next
    case (Cons b rest)
    with Cons.prems a obtain child child' where
      c: "setJsonValue child ks (JString s) = Inr child'" "obj' = obj_put obj a (JObject child')"
      using setJsonValue_step[of obj a b rest "JString s" obj'] by auto
    have "getJsonValue child' ks = Inr (Some s)"
      using Cons.IH[OF _ ks' c(1)] Cons by simp
    with c(2) Cons a show ?thesis by (simp add: obj_get_plain map_of_obj_put)
  qed
qed

lemma setJsonValue_deep_not_flat:
  "setJsonValue obj (a # b # ks) v = Inr obj' \<Longrightarrow> a \<noteq> ''__proto__'' \<Longrightarrow> \<not> isFlat obj'"
  using setJsonValue_step[of obj a b ks v obj'] by (auto simp: not_isFlat_obj_put_object)

text \<open>
  Reading back what was set, for a key none of whose segments is \<open>__proto__\<close>: on a
  translation tree (no \<open>null\<close> and no array member), \<open>setValue key value\<close> returns, and
  \<open>getValue key\<close> on the tree it leaves returns the entry with that key and exactly that
  value. The tree may be flat or nested, and the path may or may not exist beforehand, or
  be blocked by a string, a number or a boolean.
\<close>

lemma getValue_setValue_plain:
  assumes "translation_tree t" and "''__proto__'' \<notin> set (split_dot k)"
  shows "\<exists>t'. setValue t k v = Inr t' \<and> getValue t' k = Inr \<lparr>key = k, value = v\<rparr>"
proof (cases "isFlat t")
  case True
  have "k \<noteq> ''__proto__''" using assms(2) by (rule no_proto_segment_key)
  with True show ?thesis
    by (simp add: setValue_def getValue_def obj_set_plain obj_get_plain
          isFlat_obj_put_string map_of_obj_put)
next
  case False
  obtain t' where t': "setJsonValue t (split_dot k) (JString v) = Inr t'"
    using setJsonValue_returns[OF assms] by blast
  have g: "getJsonValue t' (split_dot k) = Inr (Some v)"
    using getJsonValue_setJsonValue[OF split_dot_nonempty assms(2) t'] .
  have "getValue t' k = Inr \<lparr>key = k, value = v\<rparr>"
  proof (cases "isFlat t'")
    case flat: True
    obtain a where a: "split_dot k = [a]"
    proof (cases "split_dot k")
      case Nil
      then show ?thesis using split_dot_nonempty[of k] by simp
    next
      case (Cons a rest)
      show ?thesis
      proof (cases rest)
        case Nil
        with Cons that show ?thesis by simp
      next
        case (Cons b ks)
        have sp: "split_dot k = a # b # ks"
          using \<open>split_dot k = a # rest\<close> Cons by simp
        have "a \<noteq> ''__proto__''" using assms(2) sp by auto
        moreover have "setJsonValue t (a # b # ks) (JString v) = Inr t'"
          using t' sp by (simp only:)
        ultimately have "\<not> isFlat t'" by (rule setJsonValue_deep_not_flat[rotated])
        with flat show ?thesis by simp
      qed
    qed
    then have ak: "a = k" by (rule split_dot_single)
    have kp: "k \<noteq> ''__proto__''" using assms(2) by (rule no_proto_segment_key)
    from a ak t' kp have "t' = obj_put t k (JString v)" by (simp add: obj_set_plain)
    with flat kp show ?thesis by (simp add: getValue_def obj_get_plain map_of_obj_put)
  next
    case False
    with g show ?thesis by (simp add: getValue_def)
  qed
  with False t' show ?thesis by (simp add: setValue_def)
qed

text \<open>
  Claim C10 evaluated on the code. On the empty tree, which is flat, \<open>setValue\<close> with the
  key \<open>__proto__\<close> assigns \<open>json['__proto__'] = 'v'\<close>: the assignment reaches the setter
  inherited from \<open>Object.prototype\<close>, which discards a string, and the tree stays empty.
  \<open>getValue\<close> with the same key then reads \<open>json['__proto__']\<close>, which is
  \<open>Object.prototype\<close> and not a string, and returns the empty string, not \<open>v\<close>.
\<close>

theorem getValue_setValue_proto:
  "setValue [] ''__proto__'' ''v'' = Inr []
   \<and> getValue [] ''__proto__'' = Inr \<lparr>key = ''__proto__'', value = []\<rparr>"
  by (simp add: setValue_def getValue_def isFlat_def obj_set_def obj_get_def)

text \<open>
  The same key below the top level of a nested tree, and two runs that reach
  \<open>Object.prototype\<close>: a read through two keys \<open>__proto__\<close> arrives at \<open>null\<close> and throws,
  and a write below one key \<open>__proto__\<close> would write a property of \<open>Object.prototype\<close>.
\<close>

lemma proto_segment_runs:
  "setValue [(''a'', JObject [(''b'', JString ''x'')])] ''a.__proto__'' ''v''
     = Inr [(''a'', JObject [(''b'', JString ''x'')])]
   \<and> getValue [(''a'', JObject [(''b'', JString ''x'')])] ''a.__proto__''
     = Inr \<lparr>key = ''a.__proto__'', value = []\<rparr>
   \<and> getValue [(''a'', JObject [(''b'', JString ''x'')])] ''__proto__.__proto__.x''
     = Inl TypeError
   \<and> setValue [(''a'', JObject [(''b'', JString ''x'')])] ''__proto__.x'' ''v''
     = Inl PrototypeWrite"
  by (simp add: setValue_def getValue_def isFlat_def is_string_def obj_set_def obj_get_def
        obj_put_def)

section \<open>getValue against the specification's get\<close>





section \<open>The two set variants\<close>





section \<open>Flatten, then set every entry\<close>

lemma entry_key: "key (entry p) = fst p"
  by (simp add: entry_def)

lemma entry_value: "value (entry p) = snd p"
  by (simp add: entry_def)

lemma isFlat_no_null: "isFlat obj \<Longrightarrow> no_null_member obj"
  by (induction obj rule: no_null_member.induct) (auto simp: isFlat_def is_string_def)

lemma flattenJson_flat:
  "isFlat obj \<Longrightarrow> distinct (map fst obj) \<Longrightarrow> flattenJson obj [] r = Inr m \<Longrightarrow>
     map_of m k = (case map_of obj k of Some (JString s) \<Rightarrow> Some s | _ \<Rightarrow> map_of r k)"
proof (induction obj arbitrary: r)
  case Nil
  then show ?case by simp
next
  case (Cons p obj)
  obtain k' v' where p: "p = (k', v')" by (cases p)
  from Cons.prems(1) p obtain s where s: "v' = JString s"
    by (cases v') (simp_all add: isFlat_def is_string_def)
  from Cons.prems(1) have f: "isFlat obj" by (simp add: isFlat_def)
  from Cons.prems(2) p have d: "distinct (map fst obj)" and nk: "map_of obj k' = None"
    by (auto simp: map_of_eq_None_iff)
  from Cons.prems(3) p s have "flattenJson obj [] (map_set r k' s) = Inr m"
    by (simp add: fullKey_def)
  from Cons.IH[OF f d this] p s nk show ?case
    by (auto simp: map_of_map_set split: option.split json.split)
qed

lemma setValues_flat:
  "isFlat obj \<Longrightarrow> distinct (map fst obj) \<Longrightarrow> distinct (map fst m) \<Longrightarrow>
   ''__proto__'' \<notin> fst ` set m \<Longrightarrow>
     \<exists>obj'. setValues obj (map entry m) = Inr obj' \<and> isFlat obj' \<and> distinct (map fst obj')
        \<and> (\<forall>k. map_of obj' k =
                 (case map_of m k of Some v \<Rightarrow> Some (JString v) | None \<Rightarrow> map_of obj k))"
proof (induction m arbitrary: obj)
  case Nil
  then show ?case by simp
next
  case (Cons p m)
  obtain k v where p: "p = (k, v)" by (cases p)
  from Cons.prems(4) p have kp: "k \<noteq> ''__proto__''" and mp: "''__proto__'' \<notin> fst ` set m"
    by auto
  let ?o = "obj_put obj k (JString v)"
  have s: "setValue obj k v = Inr ?o"
    using Cons.prems(1) kp by (simp add: setValue_def obj_set_plain)
  have f: "isFlat ?o" using Cons.prems(1) by (rule isFlat_obj_put_string)
  have d: "distinct (map fst ?o)" using Cons.prems(2) by (rule distinct_obj_put)
  from Cons.prems(3) p have dm: "distinct (map fst m)" and nk: "map_of m k = None"
    by (auto simp: map_of_eq_None_iff)
  from Cons.IH[OF f d dm mp] obtain obj' where
    o: "setValues ?o (map entry m) = Inr obj'" "isFlat obj'" "distinct (map fst obj')"
       "\<forall>k'. map_of obj' k' =
          (case map_of m k' of Some v \<Rightarrow> Some (JString v) | None \<Rightarrow> map_of ?o k')"
    by blast
  have "\<forall>k'. map_of obj' k' =
          (case map_of (p # m) k' of Some v \<Rightarrow> Some (JString v) | None \<Rightarrow> map_of obj k')"
    using o(4) p nk by (auto simp: map_of_obj_put split: option.split)
  moreover have "setValues obj (map entry (p # m)) = Inr obj'"
    using s o(1) p by (simp add: entry_key entry_value)
  ultimately show ?case using o(2,3) by blast
qed

text \<open>
  The round trip, for a tree whose flattened map has no key \<open>__proto__\<close>: when \<open>flatten\<close>
  accepts the tree (no \<open>null\<close> member), setting each entry of the flattened map with
  \<open>setValue\<close>, in order, starting from the empty tree, returns a tree, and \<open>flatten\<close> of
  that tree returns a map with the same keys mapped to the same strings. The two maps
  have the same entries; their order of enumeration can differ when a top-level key of
  the rebuilt tree is an array index.
\<close>

lemma flatten_roundtrip_plain:
  assumes "no_null_member t" and "flatten t = Inr m" and "''__proto__'' \<notin> fst ` set m"
  shows "\<exists>t' m'. setValues [] (map entry m) = Inr t'
           \<and> flatten t' = Inr m' \<and> map_of m' = map_of m \<and> set m' = set m"
proof -
  have dm: "distinct (map fst m)"
    using assms(2) flattenJson_distinct[of t "[]" "[]" m] by (simp add: flatten_def)
  have "isFlat []" by (simp add: isFlat_def)
  from setValues_flat[OF this _ dm assms(3)] obtain t' where
    t': "setValues [] (map entry m) = Inr t'" "isFlat t'" "distinct (map fst t')"
      "\<forall>k. map_of t' k =
         (case map_of m k of Some v \<Rightarrow> Some (JString v) | None \<Rightarrow> map_of [] k)"
    by auto
  obtain m' where m': "flatten t' = Inr m'"
    using flattenJson_returns[OF isFlat_no_null[OF t'(2)]] by (auto simp: flatten_def)
  then have dm': "distinct (map fst m')"
    using flattenJson_distinct[of t' "[]" "[]" m'] by (simp add: flatten_def)
  have "map_of m' k = map_of m k" for k
    using flattenJson_flat[OF t'(2,3), of "[]" m' k] m' t'(4)
    by (simp add: flatten_def split: option.split)
  then have eq: "map_of m' = map_of m" by (simp add: fun_eq_iff)
  with dm dm' have "set m' = set m" by (simp add: map_of_inject_set)
  with t'(1) m' eq show ?thesis by blast
qed

text \<open>
  Claim C3 evaluated on the code. The tree \<open>{"__proto__":"x"}\<close>, as \<open>JSON.parse\<close> builds
  it, has the own key \<open>__proto__\<close>, and \<open>flatten\<close> returns the one entry
  \<open>("__proto__", "x")\<close>. Setting that entry on the empty tree assigns
  \<open>json['__proto__'] = 'x'\<close>, which the setter inherited from \<open>Object.prototype\<close>
  discards: the rebuilt tree is empty, and its \<open>flatten\<close> is the empty map, not the
  original one.
\<close>

theorem flatten_roundtrip_proto:
  "flatten [(''__proto__'', JString ''x'')] = Inr [(''__proto__'', ''x'')]
   \<and> setValues [] (map entry [(''__proto__'', ''x'')]) = Inr []
   \<and> flatten [] = Inr []"
  by (simp add: flatten_def fullKey_def entry_def setValue_def isFlat_def obj_set_def)

section \<open>The retry wrapper\<close>

lemma run_loop_success:
  "i \<le> k \<Longrightarrow> k < n \<Longrightarrow> (\<forall>j. i \<le> j \<and> j < k \<longrightarrow> fn j = Inl (es j)) \<Longrightarrow> fn k = Inr v \<Longrightarrow>
     run_loop fn n i errs = (\<lparr>run_result = Some v, run_errors = []\<rparr>, errs @ map es [i..<k])"
proof (induction "k - i" arbitrary: i errs)
  case 0
  then show ?case by simp
next
  case (Suc d)
  then have lt: "i < k" and f: "fn i = Inl (es i)" by auto
  have "run_loop fn n (i + 1) (errs @ [es i])
          = (\<lparr>run_result = Some v, run_errors = []\<rparr>, (errs @ [es i]) @ map es [i + 1..<k])"
    using Suc by (intro Suc.hyps(1)) auto
  moreover have "[i..<k] = i # [i + 1..<k]" using lt by (simp add: upt_conv_Cons)
  ultimately show ?case using lt f Suc.prems(2) by simp
qed

lemma run_loop_failure:
  "i \<le> n \<Longrightarrow> (\<forall>j. i \<le> j \<and> j < n \<longrightarrow> fn j = Inl (es j)) \<Longrightarrow>
     run_loop fn n i errs =
       (\<lparr>run_result = None, run_errors = errs @ map es [i..<n]\<rparr>, errs @ map es [i..<n])"
proof (induction "n - i" arbitrary: i errs)
  case 0
  then show ?case by simp
next
  case (Suc d)
  then have lt: "i < n" and f: "fn i = Inl (es i)" by auto
  have up: "[i..<n] = i # [i + 1..<n]" using lt by (simp add: upt_conv_Cons)
  show ?case
  proof (cases "i = n - 1")
    case True
    then have "[i + 1..<n] = []" by simp
    with True lt f up show ?thesis by simp
  next
    case False
    have "run_loop fn n (i + 1) (errs @ [es i])
          = (\<lparr>run_result = None, run_errors = (errs @ [es i]) @ map es [i + 1..<n]\<rparr>,
             (errs @ [es i]) @ map es [i + 1..<n])"
      using Suc by (intro Suc.hyps(1)) auto
    with False lt f up show ?thesis by simp
  qed
qed

text \<open>
  Claim C4. \<open>run\<close> has no exceptional outcome. For a budget of \<open>n\<close> attempts on a new
  instance: if the operation fails on its first \<open>k\<close> calls and succeeds on the next one,
  with \<open>k < n\<close>, \<open>run\<close> returns the success value, and the instance has recorded
  exactly those \<open>k\<close> errors, in order, in its list \<open>errors\<close> (the \<open>errors\<close> field of the
  returned object is the empty list in this case); if the operation fails on all \<open>n\<close>
  calls, \<open>run\<close> returns a null result together with exactly those \<open>n\<close> errors.
\<close>

theorem SafeAsync_run_outcomes:
  "(k < n \<and> (\<forall>j<k. fn j = Inl (es j)) \<and> fn k = Inr v \<longrightarrow>
      SafeAsync_run fn n [] = (\<lparr>run_result = Some v, run_errors = []\<rparr>, map es [0..<k])
      \<and> length (snd (SafeAsync_run fn n [])) = k)
   \<and> ((\<forall>j<n. fn j = Inl (es j)) \<longrightarrow>
      SafeAsync_run fn n [] = (\<lparr>run_result = None, run_errors = map es [0..<n]\<rparr>, map es [0..<n])
      \<and> length (run_errors (fst (SafeAsync_run fn n []))) = n)"
  using run_loop_success[of 0 k n fn es v "[]"] run_loop_failure[of 0 n fn es "[]"]
  by (simp add: SafeAsync_run_def)

theorem SafeAsync_run_outcomes_witness:
  "SafeAsync_run (\<lambda>i. if i < 2 then Inl (Error ''down'') else Inr (7::nat)) 3 []
     = (\<lparr>run_result = Some 7, run_errors = []\<rparr>, [Error ''down'', Error ''down''])
   \<and> length (snd (SafeAsync_run (\<lambda>i. if i < 2 then Inl (Error ''down'') else Inr (7::nat)) 3 [])) = 2
   \<and> SafeAsync_run (\<lambda>i. Inl (Error ''down'') :: error + nat) 3 []
     = (\<lparr>run_result = None, run_errors = [Error ''down'', Error ''down'', Error ''down'']\<rparr>,
        [Error ''down'', Error ''down'', Error ''down''])"
proof -
  have u2: "[0..<2] = [0, Suc 0]" and u3: "[0..<3] = [0, Suc 0, 2]"
    by (simp_all add: upt_rec)
  show ?thesis
    using SafeAsync_run_outcomes[of 2 3 "\<lambda>i. if i < 2 then Inl (Error ''down'') else Inr (7::nat)"
            "\<lambda>i. Error ''down''" 7]
          SafeAsync_run_outcomes[of 0 3 "\<lambda>i. Inl (Error ''down'') :: error + nat"
            "\<lambda>i. Error ''down''" 0]
    by (simp add: u2 u3)
qed

section \<open>Batches\<close>

lemma ceil_div_unique:
  assumes "0 < n" and "l \<le> m * n" and "m = 0 \<or> (m - 1) * n < l"
  shows "ceil_div l n = m"
proof -
  have rn: "0 < real n" using assms(1) by simp
  have "real l \<le> real (m * n)" using assms(2) by (simp only: of_nat_le_iff)
  then have up: "real l / real n \<le> real_of_int (int m)"
    using rn by (simp add: pos_divide_le_eq)
  have lo: "real_of_int (int m) - 1 < real l / real n"
  proof (cases "m = 0")
    case True
    have "0 \<le> real l / real n" by simp
    then have "- 1 < real l / real n" by linarith
    with True show ?thesis by simp
  next
    case False
    with assms(3) have "(m - 1) * n < l" by simp
    then have "real ((m - 1) * n) < real l" by (simp only: of_nat_less_iff)
    moreover have "real (m - 1) = real m - 1" using False by (simp add: of_nat_diff)
    ultimately have "(real m - 1) * real n < real l" by simp
    then show ?thesis using rn by (simp add: pos_less_divide_eq)
  qed
  from lo up have "\<lceil>real l / real n\<rceil> = int m" by (rule ceiling_unique)
  then show ?thesis by (simp add: ceil_div_def)
qed

lemma ceil_div_bounds:
  assumes "0 < n"
  shows "l \<le> ceil_div l n * n" and "0 < ceil_div l n \<Longrightarrow> (ceil_div l n - 1) * n < l"
proof -
  define q where "q = (l + n - 1) div n"
  have up: "l + n - 1 < q * n + n"
    using assms dividend_less_div_times[of n "l + n - 1"] by (simp add: q_def mult.commute)
  have lo: "q * n \<le> l + n - 1" by (simp add: q_def)
  have a: "l \<le> q * n" using up assms by arith
  have b: "q = 0 \<or> (q - 1) * n < l"
  proof (cases "q = 0")
    case True
    then show ?thesis by simp
  next
    case False
    then obtain p where p: "q = Suc p" by (cases q) auto
    with lo have "p * n + n \<le> l + n - 1" by (simp add: add.commute)
    with assms have "p * n < l" by arith
    with p show ?thesis by simp
  qed
  have e: "ceil_div l n = q" using assms a b by (rule ceil_div_unique)
  show "l \<le> ceil_div l n * n" using a e by simp
  show "0 < ceil_div l n \<Longrightarrow> (ceil_div l n - 1) * n < l" using b e by simp
qed

lemma below_ceil_div:
  assumes "0 < n" and "i < ceil_div l n"
  shows "i * n < l"
proof -
  from assms have "(ceil_div l n - 1) * n < l" using ceil_div_bounds(2)[of n l] by simp
  moreover have "i \<le> ceil_div l n - 1" using assms(2) by arith
  then have "i * n \<le> (ceil_div l n - 1) * n" by (rule mult_le_mono1)
  ultimately show ?thesis by (rule le_less_trans[rotated])
qed

lemma concat_slices:
  "concat (map (\<lambda>i. slice xs (i * n) ((i + 1) * n)) [0..<m]) = take (m * n) xs"
proof (induction m)
  case 0
  show ?case by simp
next
  case (Suc m)
  have "take (m * n) xs @ take n (drop (m * n) xs) = take (m * n + n) xs"
    by (simp add: take_add)
  with Suc show ?case by (simp add: slice_def add.commute)
qed

lemma create_loop_chunks:
  assumes "0 < n"
  shows "j \<le> ceil_div (length xs) n \<Longrightarrow>
     create_loop xs n (j * n) acc =
       Some (acc @ map (\<lambda>i. slice xs (i * n) ((i + 1) * n)) [j..<ceil_div (length xs) n])"
proof (induction "ceil_div (length xs) n - j" arbitrary: j acc)
  case 0
  then have j: "j = ceil_div (length xs) n" by simp
  have "length xs \<le> j * n" using ceil_div_bounds(1)[OF assms, of "length xs"] j by simp
  then have "\<not> j * n < length xs" by simp
  then show ?case using j by (subst create_loop.simps) simp
next
  case (Suc d)
  then have lt: "j < ceil_div (length xs) n" by simp
  have c: "j * n < length xs" using assms lt by (rule below_ceil_div)
  have ih: "create_loop xs n (Suc j * n) (acc @ [slice xs (j * n) ((j + 1) * n)]) =
       Some ((acc @ [slice xs (j * n) ((j + 1) * n)])
              @ map (\<lambda>i. slice xs (i * n) ((i + 1) * n)) [Suc j..<ceil_div (length xs) n])"
    using Suc lt by (intro Suc.hyps(1)) auto
  have up: "[j..<ceil_div (length xs) n] = j # [Suc j..<ceil_div (length xs) n]"
    using lt by (simp add: upt_conv_Cons)
  have "create_loop xs n (j * n) acc
          = create_loop xs n (j * n + n) (acc @ [slice xs (j * n) (j * n + n)])"
    using c by (subst create_loop.simps) simp
  with ih up show ?case by (simp add: add.commute)
qed

text \<open>
  Claim C8. For a chunk size \<open>n > 0\<close> and a list of length \<open>L\<close>, the batches of
  \<open>translate\<close> and those of \<open>Batch.create\<close> are the same list of chunks; there are
  \<open>ceil(L / n)\<close> of them; their concatenation, in order, is the original list; every
  chunk but possibly the last has exactly \<open>n\<close> elements, and no chunk is empty or longer
  than \<open>n\<close>.
\<close>

theorem batches_chunks:
  assumes "0 < n"
  shows "\<exists>cs. batches xs n = Inr cs \<and> Batch_create xs n = Some cs
           \<and> length cs = nat \<lceil>real (length xs) / real n\<rceil>
           \<and> concat cs = xs
           \<and> (\<forall>i. Suc i < length cs \<longrightarrow> length (cs ! i) = n)
           \<and> (\<forall>i. i < length cs \<longrightarrow> 0 < length (cs ! i) \<and> length (cs ! i) \<le> n)"
proof -
  let ?m = "ceil_div (length xs) n"
  let ?cs = "map (\<lambda>i. slice xs (i * n) ((i + 1) * n)) [0..<?m]"
  have b: "batches xs n = Inr ?cs" using assms by (simp add: batches_def)
  have c: "Batch_create xs n = Some ?cs"
    using create_loop_chunks[OF assms, of 0 xs "[]"] by (simp add: Batch_create_def)
  have l: "length ?cs = nat \<lceil>real (length xs) / real n\<rceil>" by (simp add: ceil_div_def)
  have cc: "concat ?cs = xs"
    using ceil_div_bounds(1)[OF assms, of "length xs"] by (simp only: concat_slices take_all)
  have lo: "i * n < length xs" if "i < ?m" for i
    using assms that by (rule below_ceil_div)
  have full: "length (?cs ! i) = n" if "Suc i < length ?cs" for i
  proof -
    from that have "Suc i < ?m" by simp
    then have "Suc i * n < length xs" by (rule lo)
    then show ?thesis using that by (simp add: slice_def)
  qed
  have part: "0 < length (?cs ! i) \<and> length (?cs ! i) \<le> n" if "i < length ?cs" for i
    using assms that lo[of i] by (simp add: slice_def)
  from b c l cc full part show ?thesis by blast
qed



theorem batches_chunks_witness:
  "0 < (2::nat)
   \<and> (\<exists>cs. batches [1, 2, 3, 4, 5 :: nat] 2 = Inr cs \<and> Batch_create [1, 2, 3, 4, 5 :: nat] 2 = Some cs
         \<and> length cs = nat \<lceil>real (length [1, 2, 3, 4, 5 :: nat]) / real 2\<rceil>
         \<and> concat cs = [1, 2, 3, 4, 5]
         \<and> (\<forall>i. Suc i < length cs \<longrightarrow> length (cs ! i) = 2)
         \<and> (\<forall>i. i < length cs \<longrightarrow> 0 < length (cs ! i) \<and> length (cs ! i) \<le> 2))
   \<and> batches [1, 2, 3, 4, 5 :: nat] 2 = Inr [[1, 2], [3, 4], [5]]
   \<and> Batch_create [1, 2, 3, 4, 5 :: nat] 2 = Some [[1, 2], [3, 4], [5]]"
proof -
  have h: "0 < (2::nat)" by simp
  have b: "batches [1, 2, 3, 4, 5 :: nat] 2 = Inr [[1, 2], [3, 4], [5]]" by code_simp
  have c: "Batch_create [1, 2, 3, 4, 5 :: nat] 2 = Some [[1, 2], [3, 4], [5]]" by code_simp
  show ?thesis using h batches_chunks[OF h, of "[1, 2, 3, 4, 5]"] b c by (intro conjI)
qed

section \<open>The system prompt\<close>

lemma GetSubstitution_plain:
  "CHR ''$'' \<notin> set r \<Longrightarrow> GetSubstitution m b a r = r"
  by (induction m b a r rule: GetSubstitution.induct) auto

lemma find_first_skip:
  "pat \<noteq> [] \<Longrightarrow> hd pat \<notin> set pre \<Longrightarrow> find_first pat (pre @ pat @ rest) = Some (pre, rest)"
proof (induction pre)
  case Nil
  have s: "starts_with (p @ r) p" for p r :: string
    by (induction p) auto
  from Nil obtain c cs where "pat = c # cs" by (cases pat) auto
  then show ?case using s[of pat rest] by simp
next
  case (Cons x pre)
  then obtain c cs where p: "pat = c # cs" by (cases pat) auto
  with Cons.prems have "x \<noteq> c" by auto
  with p Cons show ?case by simp
qed

text \<open>
  Claim C9. For every display name without a \<open>$\<close> sign (no name of the language registry
  has one), the system prompt is the preamble with the display name in the place of the
  placeholder, except that a name equal to \<open>xhosa\<close> up to the case of its letters is
  replaced by \<open>English\<close>.
\<close>

theorem generateSystemPrompt_substitutes:
  assumes "CHR ''$'' \<notin> set languageName"
  shows "generateSystemPrompt rest languageName =
           LLM_SYSTEM_PROMPT_head
           @ (if toLowerCase languageName = ''xhosa'' then ''English'' else languageName)
           @ rest"
proof -
  have f: "find_first ''{:language}'' (LLM_SYSTEM_PROMPT rest) = Some (LLM_SYSTEM_PROMPT_head, rest)"
    unfolding LLM_SYSTEM_PROMPT_def
    by (rule find_first_skip) (simp_all add: LLM_SYSTEM_PROMPT_head_def)
  have e: "GetSubstitution m b a ''English'' = ''English''" for m b a
    by (rule GetSubstitution_plain) simp
  show ?thesis
    using assms by (simp add: generateSystemPrompt_def js_replace_def f e GetSubstitution_plain)
qed

theorem generateSystemPrompt_substitutes_witness:
  "CHR ''$'' \<notin> set ''XHosa''
   \<and> generateSystemPrompt ''.'' ''XHosa'' = LLM_SYSTEM_PROMPT_head @ ''English'' @ ''.''
   \<and> CHR ''$'' \<notin> set ''French''
   \<and> generateSystemPrompt ''.'' ''French'' = LLM_SYSTEM_PROMPT_head @ ''French'' @ ''.''"
proof -
  have x: "toLowerCase ''XHosa'' = ''xhosa''" by code_simp
  have f: "toLowerCase ''French'' \<noteq> ''xhosa''" by code_simp
  show ?thesis
    using generateSystemPrompt_substitutes[of "''XHosa''" "''.''"]
          generateSystemPrompt_substitutes[of "''French''" "''.''"] x f
    by simp
qed

section \<open>The client\<close>

text \<open>
  Claim C7. When the backend call of a batch succeeds with a response map, the output of
  \<open>processTranslations\<close> has one entry for each input entry, in the same order, with the
  input entry's key, and with the response's string at the entry's index when the
  response has that index, and the input entry's own value when it has not.
\<close>

theorem processTranslations_maps:
  assumes "sendLLMRequest this w
             (generateSystemPrompt (prompt_rest this) (language_name this))
             (generateUserPrompt (generateTranslationFormattedInput ts))
             (map String_of_index [0..<length ts]) = (Inr (Translations r), w')"
  shows "\<exists>out. processTranslations this w ts = (Inr (Some out), w')
           \<and> length out = length ts
           \<and> (\<forall>i<length ts. key (out ! i) = key (ts ! i)
                 \<and> value (out ! i) =
                     (case map_of r (String_of_index i) of Some s \<Rightarrow> s | None \<Rightarrow> value (ts ! i)))"
  using assms by (simp add: processTranslations_def Let_def)

theorem processTranslations_maps_witness:
  "sendLLMRequest french_client 0
     (generateSystemPrompt (prompt_rest french_client) (language_name french_client))
     (generateUserPrompt (generateTranslationFormattedInput
        [\<lparr>key = ''a'', value = ''Hello''\<rparr>, \<lparr>key = ''b'', value = ''World''\<rparr>]))
     (map String_of_index
        [0..<length [\<lparr>key = ''a'', value = ''Hello''\<rparr>, \<lparr>key = ''b'', value = ''World''\<rparr>]])
     = (Inr (Translations [(''0'', ''Bonjour'')]), Suc 0)
   \<and> (\<exists>out. processTranslations french_client 0
                [\<lparr>key = ''a'', value = ''Hello''\<rparr>, \<lparr>key = ''b'', value = ''World''\<rparr>]
              = (Inr (Some out), Suc 0)
         \<and> length out = length [\<lparr>key = ''a'', value = ''Hello''\<rparr>, \<lparr>key = ''b'', value = ''World''\<rparr>]
         \<and> (\<forall>i<length [\<lparr>key = ''a'', value = ''Hello''\<rparr>, \<lparr>key = ''b'', value = ''World''\<rparr>].
               key (out ! i)
                 = key ([\<lparr>key = ''a'', value = ''Hello''\<rparr>, \<lparr>key = ''b'', value = ''World''\<rparr>] ! i)
               \<and> value (out ! i) =
                   (case map_of [(''0'', ''Bonjour'')] (String_of_index i) of
                      Some s \<Rightarrow> s
                    | None \<Rightarrow>
                        value ([\<lparr>key = ''a'', value = ''Hello''\<rparr>, \<lparr>key = ''b'', value = ''World''\<rparr>] ! i))))
   \<and> processTranslations french_client 0
         [\<lparr>key = ''a'', value = ''Hello''\<rparr>, \<lparr>key = ''b'', value = ''World''\<rparr>]
       = (Inr (Some [\<lparr>key = ''a'', value = ''Bonjour''\<rparr>, \<lparr>key = ''b'', value = ''World''\<rparr>]), Suc 0)"
proof -
  have h: "sendLLMRequest french_client 0
     (generateSystemPrompt (prompt_rest french_client) (language_name french_client))
     (generateUserPrompt (generateTranslationFormattedInput
        [\<lparr>key = ''a'', value = ''Hello''\<rparr>, \<lparr>key = ''b'', value = ''World''\<rparr>]))
     (map String_of_index
        [0..<length [\<lparr>key = ''a'', value = ''Hello''\<rparr>, \<lparr>key = ''b'', value = ''World''\<rparr>]])
     = (Inr (Translations [(''0'', ''Bonjour'')]), Suc 0)"
    by (simp add: sendLLMRequest_def french_client_def)
  have c: "processTranslations french_client 0
         [\<lparr>key = ''a'', value = ''Hello''\<rparr>, \<lparr>key = ''b'', value = ''World''\<rparr>]
       = (Inr (Some [\<lparr>key = ''a'', value = ''Bonjour''\<rparr>, \<lparr>key = ''b'', value = ''World''\<rparr>]), Suc 0)"
    by code_simp
  show ?thesis using h processTranslations_maps[OF h] c by (intro conjI)
qed

text \<open>
  Claim C2 evaluated on the code. Two entries are translated in batches of one. The
  backend rejects the call for the first batch and would answer the call for the second:
  \<open>translate\<close> raises the backend's error after one call, and the second batch, which
  \<open>processTranslations\<close> would have returned, is never sent.
\<close>

theorem translate_failed_batch_raises:
  "translate flaky_client 0
     [\<lparr>key = ''a'', value = ''Hello''\<rparr>, \<lparr>key = ''b'', value = ''World''\<rparr>] 1
     = (Inl (Error ''503''), Suc 0)
   \<and> processTranslations flaky_client (Suc 0) [\<lparr>key = ''b'', value = ''World''\<rparr>]
     = (Inr (Some [\<lparr>key = ''b'', value = ''World''\<rparr>]), Suc (Suc 0))"
  by code_simp

end
